theory Spec2Isabelle
  imports Main
begin

section \<open>Outreach dashboard backend: email dispatcher, warehouse client, HTTP facade\<close>

text \<open>
  The Python sources are embedded as functions on an explicit world. Everything the
  process does beyond computing a value is a field of the world: the send calls issued to
  the mail provider, the lines printed, the attribute \<open>snowflake_connection\<close> of the
  Flask application object, the connections that are open. The parties outside the
  process (the mail provider, the warehouse, the OAuth flow, the random generator of the
  interpreter) are not in the sources: their operations are the fields of a record
  \<open>externals\<close>, each acting on a state \<open>'x\<close> of the outside that the embedding never
  inspects. An exception is a value \<open>Inl e\<close>; a call that returns is \<open>Inr v\<close>.
  Requests are handled one at a time, as the functions are written; arguments are
  Python strings.
\<close>

subsection \<open>Exceptions\<close>

datatype error =
    KeyError string
  | AttributeError string
  | ExternalError string

fun str_error :: "error \<Rightarrow> string" where
  "str_error (KeyError k) = [CHR 0x27] @ k @ [CHR 0x27]"
| "str_error (AttributeError a) = a"
| "str_error (ExternalError m) = m"

subsection \<open>base64.urlsafe_b64encode\<close>

text \<open>
  Bytes are \<open>char\<close>s (eight bits each). Three bytes give four symbols of the URL-safe
  alphabet (\<open>-\<close> and \<open>_\<close> in place of \<open>+\<close> and \<open>/\<close>); a last group of one or two bytes is
  padded with \<open>=\<close>. The decoder is the inverse on canonical input and is only used to
  state what an encoded output stands for.
\<close>

definition b64_alphabet :: string where
  "b64_alphabet = ''ABCDEFGHIJKLMNOPQRSTUVWXYZabcdefghijklmnopqrstuvwxyz0123456789-_''"

definition b64_sym :: "nat \<Rightarrow> char" where
  "b64_sym i = b64_alphabet ! i"

fun urlsafe_b64encode :: "string \<Rightarrow> string" where
  "urlsafe_b64encode [] = []"
| "urlsafe_b64encode [a] =
     (let x = (of_char a :: nat)
      in [b64_sym (x div 4), b64_sym ((x mod 4) * 16), CHR ''='', CHR ''=''])"
| "urlsafe_b64encode [a, b] =
     (let x = (of_char a :: nat); y = (of_char b :: nat)
      in [b64_sym (x div 4), b64_sym ((x mod 4) * 16 + y div 16),
          b64_sym ((y mod 16) * 4), CHR ''=''])"
| "urlsafe_b64encode (a # b # c # rest) =
     (let x = (of_char a :: nat); y = (of_char b :: nat); z = (of_char c :: nat)
      in b64_sym (x div 4) # b64_sym ((x mod 4) * 16 + y div 16) #
         b64_sym ((y mod 16) * 4 + z div 64) # b64_sym (z mod 64) #
         urlsafe_b64encode rest)"

definition b64_val :: "char \<Rightarrow> nat option" where
  "b64_val c = map_of (zip b64_alphabet [0..<64]) c"

fun urlsafe_b64decode :: "string \<Rightarrow> string option" where
  "urlsafe_b64decode [] = Some []"
| "urlsafe_b64decode (p # q # r # s # rest) =
     (if rest = [] \<and> r = CHR ''='' \<and> s = CHR ''='' then
        (case (b64_val p, b64_val q) of
           (Some i, Some j) \<Rightarrow> Some [char_of (i * 4 + j div 16)]
         | _ \<Rightarrow> None)
      else if rest = [] \<and> s = CHR ''='' then
        (case (b64_val p, b64_val q, b64_val r) of
           (Some i, Some j, Some k) \<Rightarrow>
             Some [char_of (i * 4 + j div 16), char_of ((j mod 16) * 16 + k div 4)]
         | _ \<Rightarrow> None)
      else
        (case (b64_val p, b64_val q, b64_val r, b64_val s) of
           (Some i, Some j, Some k, Some l) \<Rightarrow>
             (case urlsafe_b64decode rest of
                Some bs \<Rightarrow>
                  Some (char_of (i * 4 + j div 16) # char_of ((j mod 16) * 16 + k div 4) #
                        char_of ((k mod 4) * 64 + l) # bs)
              | None \<Rightarrow> None)
         | _ \<Rightarrow> None))"
| "urlsafe_b64decode _ = None"

subsection \<open>The MIME objects that \<open>create_message\<close> builds\<close>

text \<open>
  \<open>MIMEText(_text, _subtype)\<close> and \<open>MIMEMultipart(_subtype)\<close> of the \<open>email\<close> package,
  as the objects the constructors and \<open>__setitem__\<close>/\<open>attach\<close> leave behind: the header
  fields set through \<open>message[name] = value\<close>, in the order they were set, and the
  attached parts, in the order they were attached.
\<close>

record mime_text =
  payload :: string
  text_subtype :: string

record mime_multipart =
  subtype :: string
  items :: "(string \<times> string) list"
  parts :: "mime_text list"

definition MIMEText :: "string \<Rightarrow> string \<Rightarrow> mime_text" where
  "MIMEText txt st = \<lparr>payload = txt, text_subtype = st\<rparr>"

definition MIMEMultipart :: "string \<Rightarrow> mime_multipart" where
  "MIMEMultipart st = \<lparr>subtype = st, items = [], parts = []\<rparr>"

definition setitem :: "mime_multipart \<Rightarrow> string \<Rightarrow> string \<Rightarrow> mime_multipart" where
  "setitem m name val = m\<lparr>items := items m @ [(name, val)]\<rparr>"

definition attach :: "mime_multipart \<Rightarrow> mime_text \<Rightarrow> mime_multipart" where
  "attach m p = m\<lparr>parts := parts m @ [p]\<rparr>"




subsection \<open>The world and the parties outside the process\<close>

type_synonym handle = nat

record raw_message =
  raw :: string

record send_request =
  userId :: string
  body :: raw_message

text \<open>
  \<open>sent\<close> is the list of the send calls issued so far, each with what the provider
  answered (\<open>Inl\<close>: the call raised), \<open>oauth_flows\<close> the number of interactive
  authorizations run, \<open>stdout\<close> the lines printed, \<open>snowflake_connection\<close> the attribute of
  \<open>current_app\<close> (\<open>None\<close>: the attribute does not exist), \<open>live\<close> the connections opened
  and not closed, \<open>connect_calls\<close> the configurations \<open>snowflake.connector.connect\<close> was
  called with.
\<close>

type_synonym response = "(string \<times> string) list"

record 'x world =
  outside :: 'x
  oauth_flows :: nat
  sent :: "(send_request \<times> (error + response)) list"
  stdout :: "string list"
  snowflake_connection :: "handle option"
  live :: "handle list"
  connect_calls :: "(string \<times> string) list list"

text \<open>
  The operations of the libraries. \<open>as_bytes\<close> takes the outside state because the
  generator of the \<open>email\<close> package draws the boundary of a multipart message that has
  none from the random generator of the interpreter, at the time it serializes.
  \<open>execute_send\<close> stands for \<open>service.users().messages().send(...).execute()\<close>, whose
  result is a dictionary; \<open>cursor_fetch_json\<close> for \<open>connection.cursor()\<close>,
  \<open>cursor.execute\<close> and \<open>cursor.fetch_pandas_all().to_json(orient='index')\<close>;
  \<open>json_dumps\<close> for \<open>json.dumps(_, indent=4)\<close>; \<open>repr\<close> for the text \<open>print\<close> writes for
  the body of a request. \<open>'j\<close> is the type of parsed JSON. Handles (flow, credentials,
  service, connection) are opaque.
\<close>

record ('x, 'j) externals =
  as_bytes :: "mime_multipart \<Rightarrow> 'x \<Rightarrow> string \<times> 'x"
  from_client_secrets_file :: "string \<Rightarrow> string list \<Rightarrow> 'x \<Rightarrow> (error + handle) \<times> 'x"
  run_local_server :: "handle \<Rightarrow> nat \<Rightarrow> 'x \<Rightarrow> (error + handle) \<times> 'x"
  gmail_build :: "string \<Rightarrow> string \<Rightarrow> handle \<Rightarrow> 'x \<Rightarrow> (error + handle) \<times> 'x"
  execute_send :: "handle \<Rightarrow> send_request \<Rightarrow> 'x \<Rightarrow> (error + response) \<times> 'x"
  snowflake_connect :: "(string \<times> string) list \<Rightarrow> 'x \<Rightarrow> (error + handle) \<times> 'x"
  connection_close :: "handle \<Rightarrow> 'x \<Rightarrow> (error + unit) \<times> 'x"
  cursor_fetch_json :: "handle \<Rightarrow> string \<Rightarrow> 'x \<Rightarrow> (error + string) \<times> 'x"
  json_loads :: "string \<Rightarrow> error + 'j"
  json_dumps :: "'j \<Rightarrow> string"
  repr :: "(string \<times> string) list list \<Rightarrow> string"

subsection \<open>sendEmails.py\<close>

definition SCOPES :: "string list" where
  "SCOPES = [''https://www.googleapis.com/auth/gmail.send'']"

definition create_message ::
  "('x, 'j) externals \<Rightarrow> string \<Rightarrow> string \<Rightarrow> string \<Rightarrow> string \<Rightarrow> 'x world \<Rightarrow> raw_message \<times> 'x world"
where
  "create_message ext sender to subject message_html w =
     (let message = MIMEMultipart ''alternative'';
          message = setitem message ''to'' to;
          message = setitem message ''from'' sender;
          message = setitem message ''subject'' subject;
          message = setitem message ''bcc'' ''6939709@bcc.hubspot.com'';
          part_html = MIMEText message_html ''html'';
          message = attach message part_html;
          (bs, x) = as_bytes ext message (outside w)
      in (\<lparr>raw = urlsafe_b64encode bs\<rparr>, w\<lparr>outside := x\<rparr>))"

text \<open>
  The \<open>for\<close> loop of \<open>send_message\<close>, over the triples that \<open>zip\<close> yields. Nothing
  in it catches an exception: one raised by the send, or by \<open>result['id']\<close> on an answer
  without that key, ends the loop and leaves \<open>send_message\<close>.
\<close>

fun send_loop ::
  "('x, 'j) externals \<Rightarrow> handle \<Rightarrow> string \<Rightarrow> (string \<times> string \<times> string) list \<Rightarrow> 'x world
     \<Rightarrow> (error + unit) \<times> 'x world"
where
  "send_loop ext service sender [] w = (Inr (), w)"
| "send_loop ext service sender ((email_body, subject, to_email) # rest) w =
     (case create_message ext sender to_email subject email_body w of
        (message, w1) \<Rightarrow>
          (let request = \<lparr>userId = ''me'', body = message\<rparr> in
           case execute_send ext service request (outside w1) of
             (Inl e, x) \<Rightarrow> (Inl e, w1\<lparr>outside := x, sent := sent w1 @ [(request, Inl e)]\<rparr>)
           | (Inr result, x) \<Rightarrow>
               (case map_of result ''id'' of
                  None \<Rightarrow>
                    (Inl (KeyError ''id''),
                     w1\<lparr>outside := x, sent := sent w1 @ [(request, Inr result)]\<rparr>)
                | Some message_id \<Rightarrow>
                    send_loop ext service sender rest
                      (w1\<lparr>outside := x, sent := sent w1 @ [(request, Inr result)],
                          stdout := stdout w1 @
                            [''Message Id: '' @ message_id @ '' - sent to '' @ to_email @ ''.'']\<rparr>))))"

text \<open>
  \<open>zip\<close> of three sequences stops with the shortest. The three calls before the loop
  are the authorization; each may raise.
\<close>

definition send_message ::
  "('x, 'j) externals \<Rightarrow> string list \<Rightarrow> string list \<Rightarrow> string list \<Rightarrow> 'x world
     \<Rightarrow> (error + unit) \<times> 'x world"
where
  "send_message ext email_bodies email_subjects to_emails w =
     (case from_client_secrets_file ext ''credentials.json'' SCOPES (outside w) of
        (Inl e, x) \<Rightarrow> (Inl e, w\<lparr>outside := x\<rparr>)
      | (Inr flow, x) \<Rightarrow>
          (case run_local_server ext flow 0 x of
             (Inl e, x1) \<Rightarrow> (Inl e, w\<lparr>outside := x1, oauth_flows := Suc (oauth_flows w)\<rparr>)
           | (Inr creds, x1) \<Rightarrow>
               (case gmail_build ext ''gmail'' ''v1'' creds x1 of
                  (Inl e, x2) \<Rightarrow> (Inl e, w\<lparr>outside := x2, oauth_flows := Suc (oauth_flows w)\<rparr>)
                | (Inr service, x2) \<Rightarrow>
                    send_loop ext service ''cameron.michie@ably.com''
                      (zip email_bodies (zip email_subjects to_emails))
                      (w\<lparr>outside := x2, oauth_flows := Suc (oauth_flows w)\<rparr>))))"

subsection \<open>send-emails.py\<close>


subsection \<open>archive/snowflakeConnector.py\<close>

definition config :: "(string \<times> string) list" where
  "config =
     [(''authenticator'', ''externalbrowser''),
      (''user'', ''CAMERON.MICHIE@ABLY.COM''),
      (''account'', ''hk06212.eu-west-1''),
      (''database'', ''ABLY_ANALYTICS_PRODUCTION''),
      (''schema'', ''MODELLED_COMMERCIAL''),
      (''warehouse'', ''VW_CLIENTS_PRODUCTION'')]"

definition get_snowflake_connection ::
  "('x, 'j) externals \<Rightarrow> 'x world \<Rightarrow> (error + handle) \<times> 'x world"
where
  "get_snowflake_connection ext w =
     (case snowflake_connection w of
        Some c \<Rightarrow> (Inr c, w)
      | None \<Rightarrow>
          (case snowflake_connect ext config (outside w) of
             (Inl e, x) \<Rightarrow> (Inl e, w\<lparr>outside := x, connect_calls := connect_calls w @ [config]\<rparr>)
           | (Inr c, x) \<Rightarrow>
               (Inr c,
                w\<lparr>outside := x, connect_calls := connect_calls w @ [config],
                  snowflake_connection := Some c, live := live w @ [c],
                  stdout := stdout w @ [''New Snowflake connection established.'']\<rparr>)))"

definition fetch_data_as_json ::
  "('x, 'j) externals \<Rightarrow> string \<Rightarrow> 'x world \<Rightarrow> (error + string) \<times> 'x world"
where
  "fetch_data_as_json ext sql_query w =
     (case get_snowflake_connection ext w of
        (Inl e, w1) \<Rightarrow> (Inl e, w1)
      | (Inr connection, w1) \<Rightarrow>
          (case cursor_fetch_json ext connection sql_query (outside w1) of
             (r, x) \<Rightarrow> (r, w1\<lparr>outside := x\<rparr>)))"

text \<open>
  The body of the \<open>try\<close>. \<open>get_sql\<close> is the result of calling the query provider (it
  is called first, being the argument of \<open>fetch_data_as_json\<close>).
\<close>

definition process_try ::
  "('x, 'j) externals \<Rightarrow> error + string \<Rightarrow> 'x world \<Rightarrow> (error + 'j) \<times> 'x world"
where
  "process_try ext get_sql w =
     (case get_sql of
        Inl e \<Rightarrow> (Inl e, w)
      | Inr sql \<Rightarrow>
          (case fetch_data_as_json ext sql w of
             (Inl e, w1) \<Rightarrow> (Inl e, w1)
           | (Inr json_data, w1) \<Rightarrow>
               (case json_loads ext json_data of
                  Inl e \<Rightarrow> (Inl e, w1)
                | Inr parsed_data \<Rightarrow>
                    (Inr parsed_data, w1\<lparr>stdout := stdout w1 @ [json_dumps ext parsed_data]\<rparr>))))"

text \<open>
  The \<open>except\<close> clause: it reads the attribute, closes the connection, deletes the
  attribute and raises the exception again. Reading an attribute that does not exist
  raises \<open>AttributeError\<close>, and an exception raised inside the clause replaces the one
  being handled.
\<close>

definition process_except :: "('x, 'j) externals \<Rightarrow> error \<Rightarrow> 'x world \<Rightarrow> (error + 'j) \<times> 'x world"
where
  "process_except ext e w =
     (let w1 = w\<lparr>stdout := stdout w @ [''Error processing query: '' @ str_error e]\<rparr> in
      case snowflake_connection w1 of
        None \<Rightarrow> (Inl (AttributeError ''snowflake_connection''), w1)
      | Some c \<Rightarrow>
          (case connection_close ext c (outside w1) of
             (Inl e', x) \<Rightarrow> (Inl e', w1\<lparr>outside := x\<rparr>)
           | (Inr u, x) \<Rightarrow>
               (Inl e, w1\<lparr>outside := x, live := remove1 c (live w1),
                          snowflake_connection := None\<rparr>)))"

definition process_snowflake_query ::
  "('x, 'j) externals \<Rightarrow> error + string \<Rightarrow> 'x world \<Rightarrow> (error + 'j) \<times> 'x world"
where
  "process_snowflake_query ext get_sql w =
     (case process_try ext get_sql w of
        (Inr parsed_data, w1) \<Rightarrow> (Inr parsed_data, w1)
      | (Inl e, w1) \<Rightarrow> process_except ext e w1)"

subsection \<open>archive/app.py and app.py\<close>

text \<open>
  The body of a request to \<open>/send_emails\<close> is modelled as what the front end posts: a
  JSON array of objects whose values are strings. An object may lack a key. \<open>info\<close> is
  the text that \<open>queries.info()\<close> returns; \<open>run_script\<close> only prints the body it is
  given.
\<close>

type_synonym descriptor = "(string \<times> string) list"

datatype 'j content = Json 'j | JsonObject "(string \<times> string) list" | Text string

record 'j http_response =
  status :: nat
  content :: "'j content"

definition getitem :: "descriptor \<Rightarrow> string \<Rightarrow> error + string" where
  "getitem d k = (case map_of d k of None \<Rightarrow> Inl (KeyError k) | Some v \<Rightarrow> Inr v)"

fun collect ::
  "descriptor list \<Rightarrow> string list \<times> string list \<times> string list
     \<Rightarrow> error + (string list \<times> string list \<times> string list)"
where
  "collect [] acc = Inr acc"
| "collect (emailData # rest) (emailBody, emailSubjects, emailTo) =
     (case getitem emailData ''emailHtml'' of
        Inl e \<Rightarrow> Inl e
      | Inr html \<Rightarrow>
          (case getitem emailData ''emailSubject'' of
             Inl e \<Rightarrow> Inl e
           | Inr subject \<Rightarrow>
               (case getitem emailData ''USER_EMAIL'' of
                  Inl e \<Rightarrow> Inl e
                | Inr to_email \<Rightarrow>
                    collect rest
                      (emailBody @ [html], emailSubjects @ [subject], emailTo @ [to_email]))))"

definition send_emails ::
  "('x, 'j) externals \<Rightarrow> descriptor list \<Rightarrow> 'x world \<Rightarrow> (error + 'j http_response) \<times> 'x world"
where
  "send_emails ext allEmailData w =
     (let w0 = w\<lparr>stdout := stdout w @ [''Received data: '' @ repr ext allEmailData]\<rparr> in
      case collect allEmailData ([], [], []) of
        Inl e \<Rightarrow> (Inl e, w0)
      | Inr (emailBody, emailSubjects, emailTo) \<Rightarrow>
          (case send_message ext emailBody emailSubjects emailTo w0 of
             (Inl e, w1) \<Rightarrow> (Inl e, w1)
           | (Inr u, w1) \<Rightarrow>
               (Inr \<lparr>status = 200,
                     content = JsonObject
                       [(''messaga'', ''Emails received and processed successfully!'')]\<rparr>,
                w1)))"

definition run_script ::
  "('x, 'j) externals \<Rightarrow> string \<Rightarrow> descriptor list \<Rightarrow> 'x world \<Rightarrow> (error + 'j http_response) \<times> 'x world"
where
  "run_script ext info data w =
     (let w0 = w\<lparr>stdout := stdout w @ [''Received data: '' @ repr ext data]\<rparr> in
      case process_snowflake_query ext (Inr info) w0 of
        (Inl e, w1) \<Rightarrow> (Inl e, w1)
      | (Inr dashboard_data, w1) \<Rightarrow> (Inr \<lparr>status = 200, content = Json dashboard_data\<rparr>, w1))"

definition home :: "'j http_response" where
  "home = \<lparr>status = 200, content = Text ''Welcome to the Flask Server!''\<rparr>"

text \<open>
  The routes as the decorators declare them (\<open>@app.route\<close> without \<open>methods\<close> is
  \<open>GET\<close>; the \<open>HEAD\<close> and \<open>OPTIONS\<close> that Flask answers unasked are not listed). A
  request that no rule matches is answered 404, one whose rule does not allow the method
  405; the text of such an error page is not modelled. An exception that leaves a view
  function is the result \<open>Inl e\<close> of the application.
\<close>

datatype http_method = GET | POST | PUT | DELETE

datatype endpoint = Run_script | Send_emails | Home

record route =
  rule :: string
  methods :: "http_method list"
  view :: endpoint

definition archive_app_routes :: "route list" where
  "archive_app_routes =
     [\<lparr>rule = ''/run_script'', methods = [POST], view = Run_script\<rparr>,
      \<lparr>rule = ''/send_emails'', methods = [POST], view = Send_emails\<rparr>,
      \<lparr>rule = ''/'', methods = [GET], view = Home\<rparr>]"

definition app_routes :: "route list" where
  "app_routes =
     [\<lparr>rule = ''/run_script'', methods = [POST], view = Run_script\<rparr>,
      \<lparr>rule = ''/'', methods = [GET], view = Home\<rparr>]"

definition match_route :: "route list \<Rightarrow> http_method \<Rightarrow> string \<Rightarrow> nat + endpoint" where
  "match_route routes m path =
     (case find (\<lambda>r. rule r = path \<and> m \<in> set (methods r)) routes of
        Some r \<Rightarrow> Inr (view r)
      | None \<Rightarrow> if path \<in> rule ` set routes then Inl 405 else Inl 404)"

definition surface :: "route list \<Rightarrow> (http_method \<times> string) list" where
  "surface routes = concat (map (\<lambda>r. map (\<lambda>m. (m, rule r)) (methods r)) routes)"

definition serve ::
  "route list \<Rightarrow> ('x, 'j) externals \<Rightarrow> string \<Rightarrow> http_method \<Rightarrow> string \<Rightarrow> descriptor list \<Rightarrow> 'x world
     \<Rightarrow> (error + 'j http_response) \<times> 'x world"
where
  "serve routes ext info m path data w =
     (case match_route routes m path of
        Inl code \<Rightarrow> (Inr \<lparr>status = code, content = Text []\<rparr>, w)
      | Inr Run_script \<Rightarrow> run_script ext info data w
      | Inr Send_emails \<Rightarrow> send_emails ext data w
      | Inr Home \<Rightarrow> (Inr home, w))"

definition archive_app ::
  "('x, 'j) externals \<Rightarrow> string \<Rightarrow> http_method \<Rightarrow> string \<Rightarrow> descriptor list \<Rightarrow> 'x world
     \<Rightarrow> (error + 'j http_response) \<times> 'x world"
where
  "archive_app = serve archive_app_routes"

definition app ::
  "('x, 'j) externals \<Rightarrow> string \<Rightarrow> http_method \<Rightarrow> string \<Rightarrow> descriptor list \<Rightarrow> 'x world
     \<Rightarrow> (error + 'j http_response) \<times> 'x world"
where
  "app = serve app_routes"

subsection \<open>A concrete outside, for evaluation\<close>

text \<open>
  What CPython's \<open>email.generator\<close> writes for a message of the shape above whose field
  values are short and 7-bit (no header folding, no encoded words): the header lines the
  constructors add, the fields in the order they were set, and the parts between
  delimiter lines. When the message has no boundary, \<open>_make_boundary\<close> formats
  \<open>random.randrange(sys.maxsize)\<close> with nineteen digits between fifteen and two \<open>=\<close>
  signs. (The loop that lengthens a boundary occurring as a line of the body is left out.)
\<close>

fun str_nat :: "nat \<Rightarrow> string" where
  "str_nat n =
     (if n < 10 then [char_of (48 + n)] else str_nat (n div 10) @ [char_of (48 + n mod 10)])"

declare str_nat.simps [simp del]

definition make_boundary :: "nat \<Rightarrow> string" where
  "make_boundary token =
     replicate 15 CHR ''='' @
     replicate (19 - length (str_nat token)) CHR ''0'' @ str_nat token @ ''==''"

definition NL :: string where
  "NL = [CHR 0x0A]"

definition DQ :: string where
  "DQ = [CHR 0x22]"

fun join :: "string \<Rightarrow> string list \<Rightarrow> string" where
  "join sep [] = []"
| "join sep [x] = x"
| "join sep (x # y # rest) = x @ sep @ join sep (y # rest)"

definition flatten_text :: "mime_text \<Rightarrow> string" where
  "flatten_text p =
     ''Content-Type: text/'' @ text_subtype p @ ''; charset='' @ DQ @ ''us-ascii'' @ DQ @ NL @
     ''MIME-Version: 1.0'' @ NL @
     ''Content-Transfer-Encoding: 7bit'' @ NL @ NL @
     payload p"

definition flatten_multipart :: "string \<Rightarrow> mime_multipart \<Rightarrow> string" where
  "flatten_multipart boundary m =
     ''Content-Type: multipart/'' @ subtype m @ ''; boundary='' @ DQ @ boundary @ DQ @ NL @
     ''MIME-Version: 1.0'' @ NL @
     concat (map (\<lambda>(name, val). name @ '': '' @ val @ NL) (items m)) @ NL @
     ''--'' @ boundary @ NL @
     join (NL @ ''--'' @ boundary @ NL) (map flatten_text (parts m)) @
     NL @ ''--'' @ boundary @ ''--'' @ NL"

text \<open>
  The state of the outside: the numbers the random generator will return, whether the
  user grants the OAuth consent, which send calls the mail provider rejects (counted from
  0) and how many it has received, whether the warehouse accepts connections, how many
  connection handles it has given out, and the JSON text a query returns (\<open>None\<close>: the
  statement is rejected).
\<close>

record sim =
  tokens :: "nat list"
  consent :: bool
  rejected :: "nat list"
  received :: nat
  warehouse_up :: bool
  handles :: nat
  query_json :: "string option"

definition sim_as_bytes :: "mime_multipart \<Rightarrow> sim \<Rightarrow> string \<times> sim" where
  "sim_as_bytes m s =
     (case tokens s of
        [] \<Rightarrow> (flatten_multipart (make_boundary 0) m, s)
      | t # ts \<Rightarrow> (flatten_multipart (make_boundary t) m, s\<lparr>tokens := ts\<rparr>))"

definition sim_execute_send :: "handle \<Rightarrow> send_request \<Rightarrow> sim \<Rightarrow> (error + response) \<times> sim" where
  "sim_execute_send service request s =
     (if received s \<in> set (rejected s) then Inl (ExternalError ''HttpError'')
      else Inr [(''id'', ''msg'' @ str_nat (received s)), (''labelIds'', ''SENT'')],
      s\<lparr>received := Suc (received s)\<rparr>)"

definition sim_connect :: "(string \<times> string) list \<Rightarrow> sim \<Rightarrow> (error + handle) \<times> sim" where
  "sim_connect cfg s =
     (if warehouse_up s then (Inr (handles s), s\<lparr>handles := Suc (handles s)\<rparr>)
      else (Inl (ExternalError ''DatabaseError''), s))"

definition sim_externals :: "(sim, string) externals" where
  "sim_externals =
     \<lparr>as_bytes = sim_as_bytes,
      from_client_secrets_file = (\<lambda>file scopes s. (Inr 1, s)),
      run_local_server =
        (\<lambda>flow port s. (if consent s then Inr 2 else Inl (ExternalError ''AccessDeniedError''), s)),
      gmail_build = (\<lambda>name version creds s. (Inr 3, s)),
      execute_send = sim_execute_send,
      snowflake_connect = sim_connect,
      connection_close = (\<lambda>c s. (Inr (), s)),
      cursor_fetch_json =
        (\<lambda>c sql s. (case query_json s of
                       None \<Rightarrow> Inl (ExternalError ''ProgrammingError'')
                     | Some t \<Rightarrow> Inr t, s)),
      json_loads = (\<lambda>t. if t = [] then Inl (ExternalError ''JSONDecodeError'') else Inr t),
      json_dumps = (\<lambda>t. t),
      repr = (\<lambda>ds. str_nat (length ds) @ '' descriptors'')\<rparr>"

definition sim0 :: sim where
  "sim0 = \<lparr>tokens = [1, 2, 3], consent = True, rejected = [], received = 0,
           warehouse_up = True, handles = 0, query_json = Some ''{}''\<rparr>"

definition world0 :: "sim \<Rightarrow> sim world" where
  "world0 s = \<lparr>outside = s, oauth_flows = 0, sent = [], stdout = [],
              snowflake_connection = None, live = [], connect_calls = []\<rparr>"

subsection \<open>Vocabulary of the statements\<close>


definition request_for ::
  "('x, 'j) externals \<Rightarrow> string \<Rightarrow> string \<times> string \<times> string \<Rightarrow> send_request \<Rightarrow> bool"
where
  "request_for ext sender t request =
     (case t of (email_body, subject, to_email) \<Rightarrow>
        \<exists>w. request = \<lparr>userId = ''me'',
                        body = fst (create_message ext sender to_email subject email_body w)\<rparr>)"

definition authorization_succeeds :: "('x, 'j) externals \<Rightarrow> 'x world \<Rightarrow> bool" where
  "authorization_succeeds ext w =
     (case from_client_secrets_file ext ''credentials.json'' SCOPES (outside w) of
        (Inl e, x) \<Rightarrow> False
      | (Inr flow, x) \<Rightarrow>
          (case run_local_server ext flow 0 x of
             (Inl e, x1) \<Rightarrow> False
           | (Inr creds, x1) \<Rightarrow>
               (case gmail_build ext ''gmail'' ''v1'' creds x1 of
                  (Inl e, x2) \<Rightarrow> False
                | (Inr service, x2) \<Rightarrow> True)))"


definition one_connection :: "'x world \<Rightarrow> bool" where
  "one_connection w =
     (live w = (case snowflake_connection w of None \<Rightarrow> [] | Some c \<Rightarrow> [c]))"

text \<open>
  \<open>loop_trace ts r calls\<close>: what the calls issued by a run of the loop over \<open>ts\<close> that
  ended with \<open>r\<close> look like. They are requests for a prefix of \<open>ts\<close>, in order; all but the
  last were answered; a run that returns has a call for every triple; when the last call
  raised, that exception is the result.
\<close>

definition loop_trace ::
  "('x, 'j) externals \<Rightarrow> string \<Rightarrow> (string \<times> string \<times> string) list \<Rightarrow> (error + unit)
     \<Rightarrow> (send_request \<times> (error + response)) list \<Rightarrow> bool"
where
  "loop_trace ext sender ts r calls =
     (length calls \<le> length ts
      \<and> list_all2 (\<lambda>t c. request_for ext sender t (fst c)) (take (length calls) ts) calls
      \<and> (\<forall>c\<in>set (butlast calls). \<exists>result. snd c = Inr result)
      \<and> (r = Inr () \<longrightarrow> length calls = length ts \<and> (\<forall>c\<in>set calls. \<exists>result. snd c = Inr result))
      \<and> (\<forall>e. calls \<noteq> [] \<and> snd (last calls) = Inl e \<longrightarrow> r = Inl e))"


subsection \<open>Facts about the encoding\<close>

lemma b64_table:
  "list_all (\<lambda>i. b64_val (b64_sym i) = Some i \<and> b64_sym i \<noteq> CHR ''='') [0..<64]"
  by code_simp

lemma b64_val_sym: "i < 64 \<Longrightarrow> b64_val (b64_sym i) = Some i"
  using b64_table by (simp add: list_all_iff)

lemma b64_sym_not_pad: "i < 64 \<Longrightarrow> b64_sym i \<noteq> CHR ''=''"
  using b64_table by (simp add: list_all_iff)

lemma decode_quad:
  assumes "i < 64" "j < 64" "k < 64" "l < 64"
  shows "urlsafe_b64decode (b64_sym i # b64_sym j # b64_sym k # b64_sym l # rest) =
     (case urlsafe_b64decode rest of
        Some bs \<Rightarrow> Some (char_of (i * 4 + j div 16) # char_of ((j mod 16) * 16 + k div 4) #
                        char_of ((k mod 4) * 64 + l) # bs)
      | None \<Rightarrow> None)"
  using assms by (simp add: b64_val_sym b64_sym_not_pad)

lemma decode_pad1:
  assumes "i < 64" "j < 64" "k < 64"
  shows "urlsafe_b64decode [b64_sym i, b64_sym j, b64_sym k, CHR ''=''] =
     Some [char_of (i * 4 + j div 16), char_of ((j mod 16) * 16 + k div 4)]"
  using assms by (simp add: b64_val_sym b64_sym_not_pad)

lemma decode_pad2:
  assumes "i < 64" "j < 64"
  shows "urlsafe_b64decode [b64_sym i, b64_sym j, CHR ''='', CHR ''=''] =
     Some [char_of (i * 4 + j div 16)]"
  using assms by (simp add: b64_val_sym b64_sym_not_pad)

lemma sextet_bounds:
  fixes x y z :: nat
  assumes "x < 256" "y < 256" "z < 256"
  shows "x div 4 < 64" "(x mod 4) * 16 + y div 16 < 64" "(y mod 16) * 4 + z div 64 < 64"
    "z mod 64 < 64" "(x mod 4) * 16 < 64" "(y mod 16) * 4 < 64"
  using assms by auto

lemma octet1:
  fixes x y :: nat
  assumes "y < 256"
  shows "x div 4 * 4 + ((x mod 4) * 16 + y div 16) div 16 = x"
proof -
  have "y div 16 < 16" using assms by simp
  then have "((x mod 4) * 16 + y div 16) div 16 = x mod 4" by simp
  then show ?thesis by simp
qed

lemma octet2:
  fixes x y z :: nat
  assumes "y < 256" "z < 256"
  shows "(((x mod 4) * 16 + y div 16) mod 16) * 16 + ((y mod 16) * 4 + z div 64) div 4 = y"
proof -
  have "y div 16 < 16" using assms by simp
  then have a: "((x mod 4) * 16 + y div 16) mod 16 = y div 16" by simp
  have "z div 64 < 4" using assms by simp
  then have b: "((y mod 16) * 4 + z div 64) div 4 = y mod 16" by simp
  show ?thesis unfolding a b by simp
qed

lemma octet3:
  fixes y z :: nat
  assumes "z < 256"
  shows "(((y mod 16) * 4 + z div 64) mod 4) * 64 + z mod 64 = z"
proof -
  have "z div 64 < 4" using assms by simp
  then have a: "((y mod 16) * 4 + z div 64) mod 4 = z div 64" by simp
  show ?thesis unfolding a by simp
qed

lemma b64_roundtrip: "urlsafe_b64decode (urlsafe_b64encode bs) = Some bs"
proof (induction bs rule: urlsafe_b64encode.induct)
  case 1
  show ?case by simp
next
  case (2 a)
  define x where "x = (of_char a :: nat)"
  have x: "x < 256" by (simp add: x_def)
  have "urlsafe_b64encode [a] = [b64_sym (x div 4), b64_sym ((x mod 4) * 16), CHR ''='', CHR ''='']"
    by (simp add: x_def Let_def)
  moreover have "x div 4 * 4 + (x mod 4) * 16 div 16 = x" by simp
  moreover have "char_of x = a" by (simp add: x_def Let_def)
  ultimately show ?case
    using decode_pad2 [of "x div 4" "(x mod 4) * 16"] sextet_bounds [OF x x x] by simp
next
  case (3 a b)
  define x where "x = (of_char a :: nat)"
  define y where "y = (of_char b :: nat)"
  have x: "x < 256" and y: "y < 256" by (simp_all add: x_def y_def)
  have "urlsafe_b64encode [a, b] = [b64_sym (x div 4), b64_sym ((x mod 4) * 16 + y div 16),
          b64_sym ((y mod 16) * 4), CHR ''='']"
    by (simp add: x_def y_def Let_def)
  moreover have "(((x mod 4) * 16 + y div 16) mod 16) * 16 + (y mod 16) * 4 div 4 = y"
    using octet2 [of y 0 x] y by simp
  moreover have "char_of x = a" "char_of y = b" by (simp_all add: x_def y_def)
  ultimately show ?case
    using decode_pad1 [of "x div 4" "(x mod 4) * 16 + y div 16" "(y mod 16) * 4"]
      sextet_bounds [OF x y y] octet1 [OF y, of x] by simp
next
  case (4 a b c rest)
  define x where "x = (of_char a :: nat)"
  define y where "y = (of_char b :: nat)"
  define z where "z = (of_char c :: nat)"
  have x: "x < 256" and y: "y < 256" and z: "z < 256" by (simp_all add: x_def y_def z_def)
  have "urlsafe_b64encode (a # b # c # rest) =
      b64_sym (x div 4) # b64_sym ((x mod 4) * 16 + y div 16) #
         b64_sym ((y mod 16) * 4 + z div 64) # b64_sym (z mod 64) # urlsafe_b64encode rest"
    by (simp add: x_def y_def z_def Let_def)
  moreover have "char_of x = a" "char_of y = b" "char_of z = c" by (simp_all add: x_def y_def z_def)
  ultimately show ?case
    using decode_quad [of "x div 4" "(x mod 4) * 16 + y div 16" "(y mod 16) * 4 + z div 64" "z mod 64"
        "urlsafe_b64encode rest"]
      sextet_bounds [OF x y z] octet1 [OF y, of x] octet2 [OF y z, of x] octet3 [OF z, of y] 4
    by simp
qed

lemma b64_inj: "urlsafe_b64encode a = urlsafe_b64encode b \<Longrightarrow> a = b"
  by (metis b64_roundtrip option.inject)






lemma create_message_raw:
  "fst (create_message ext sender to subject message_html w) =
     \<lparr>raw = urlsafe_b64encode (fst (as_bytes ext
        \<lparr>subtype = ''alternative'',
         items = [(''to'', to), (''from'', sender), (''subject'', subject),
                  (''bcc'', ''6939709@bcc.hubspot.com'')],
         parts = [\<lparr>payload = message_html, text_subtype = ''html''\<rparr>]\<rparr> (outside w)))\<rparr>"
  by (simp add: create_message_def Let_def MIMEMultipart_def MIMEText_def setitem_def attach_def
      split: prod.splits)

subsection \<open>What \<open>create_message\<close> returns\<close>





subsection \<open>The batch loop\<close>

lemma create_message_world:
  "snd (create_message ext sender to subject message_html w) =
     w\<lparr>outside := snd (as_bytes ext
        \<lparr>subtype = ''alternative'',
         items = [(''to'', to), (''from'', sender), (''subject'', subject),
                  (''bcc'', ''6939709@bcc.hubspot.com'')],
         parts = [\<lparr>payload = message_html, text_subtype = ''html''\<rparr>]\<rparr> (outside w))\<rparr>"
  by (simp add: create_message_def Let_def MIMEMultipart_def MIMEText_def setitem_def attach_def
      split: prod.splits)

lemma create_message_sent [simp]:
  "sent (snd (create_message ext sender to subject message_html w)) = sent w"
  by (simp add: create_message_world)

lemma create_message_oauth [simp]:
  "oauth_flows (snd (create_message ext sender to subject message_html w)) = oauth_flows w"
  by (simp add: create_message_world)

lemma request_forI:
  "request_for ext sender (b, s, t)
     \<lparr>userId = ''me'', body = fst (create_message ext sender t s b w)\<rparr>"
  unfolding request_for_def by auto

lemma send_loop_Cons:
  "send_loop ext service sender ((b, s, t) # ts) w =
     (let w1 = snd (create_message ext sender t s b w);
          request = \<lparr>userId = ''me'', body = fst (create_message ext sender t s b w)\<rparr>
      in case execute_send ext service request (outside w1) of
           (Inl e, x) \<Rightarrow> (Inl e, w1\<lparr>outside := x, sent := sent w1 @ [(request, Inl e)]\<rparr>)
         | (Inr result, x) \<Rightarrow>
             (case map_of result ''id'' of
                None \<Rightarrow>
                  (Inl (KeyError ''id''),
                   w1\<lparr>outside := x, sent := sent w1 @ [(request, Inr result)]\<rparr>)
              | Some message_id \<Rightarrow>
                  send_loop ext service sender ts
                    (w1\<lparr>outside := x, sent := sent w1 @ [(request, Inr result)],
                        stdout := stdout w1 @
                          [''Message Id: '' @ message_id @ '' - sent to '' @ t @ ''.'']\<rparr>)))"
  by (cases "create_message ext sender t s b w") (simp add: Let_def)

declare send_loop.simps(2) [simp del]

lemma loop_trace_Nil: "loop_trace ext sender [] (Inr ()) []"
  by (simp add: loop_trace_def)

lemma loop_trace_fail:
  "request_for ext sender t request \<Longrightarrow> loop_trace ext sender (t # ts) (Inl e) [(request, Inl e)]"
  by (simp add: loop_trace_def)

lemma loop_trace_no_id:
  "request_for ext sender t request \<Longrightarrow>
     loop_trace ext sender (t # ts) (Inl e) [(request, Inr result)]"
  by (simp add: loop_trace_def)

lemma loop_trace_Cons:
  assumes "request_for ext sender t request" "loop_trace ext sender ts r calls"
  shows "loop_trace ext sender (t # ts) r ((request, Inr result) # calls)"
  using assms by (auto simp: loop_trace_def split: if_splits)

lemma loop_trace_not_started: "loop_trace ext sender zs (Inl e) []"
  by (simp add: loop_trace_def)

lemma send_loop_trace:
  "\<exists>calls. sent (snd (send_loop ext service sender ts w)) = sent w @ calls
      \<and> loop_trace ext sender ts (fst (send_loop ext service sender ts w)) calls"
proof (induction ts arbitrary: w)
  case Nil
  show ?case by (simp add: loop_trace_Nil)
next
  case (Cons t ts)
  obtain b s to_email where t: "t = (b, s, to_email)" by (cases t) auto
  define w1 where "w1 = snd (create_message ext sender to_email s b w)"
  define request where
    "request = \<lparr>userId = ''me'', body = fst (create_message ext sender to_email s b w)\<rparr>"
  have rf: "request_for ext sender t request"
    unfolding t request_def by (rule request_forI)
  have s1: "sent w1 = sent w" by (simp add: w1_def)
  obtain res x where ex: "execute_send ext service request (outside w1) = (res, x)"
    by (cases "execute_send ext service request (outside w1)") auto
  have unfold: "send_loop ext service sender (t # ts) w =
     (case res of
        Inl e \<Rightarrow> (Inl e, w1\<lparr>outside := x, sent := sent w1 @ [(request, Inl e)]\<rparr>)
      | Inr result \<Rightarrow>
          (case map_of result ''id'' of
             None \<Rightarrow>
               (Inl (KeyError ''id''),
                w1\<lparr>outside := x, sent := sent w1 @ [(request, Inr result)]\<rparr>)
           | Some message_id \<Rightarrow>
               send_loop ext service sender ts
                 (w1\<lparr>outside := x, sent := sent w1 @ [(request, Inr result)],
                     stdout := stdout w1 @
                       [''Message Id: '' @ message_id @ '' - sent to '' @ to_email @ ''.'']\<rparr>)))"
    unfolding t send_loop_Cons Let_def w1_def [symmetric] request_def [symmetric] ex
    by (simp split: sum.splits)
  show ?case
  proof (cases res)
    case (Inl e)
    have "send_loop ext service sender (t # ts) w =
            (Inl e, w1\<lparr>outside := x, sent := sent w1 @ [(request, Inl e)]\<rparr>)"
      by (simp add: unfold Inl)
    then show ?thesis
      using loop_trace_fail [OF rf, of ts e] s1 by simp
  next
    case (Inr result)
    show ?thesis
    proof (cases "map_of result ''id''")
      case None
      have "send_loop ext service sender (t # ts) w =
            (Inl (KeyError ''id''), w1\<lparr>outside := x, sent := sent w1 @ [(request, Inr result)]\<rparr>)"
        by (simp add: unfold Inr None)
      then show ?thesis
        using loop_trace_no_id [OF rf, of ts "KeyError ''id''" result] s1 by simp
    next
      case (Some message_id)
      define w2 where "w2 = w1\<lparr>outside := x, sent := sent w1 @ [(request, Inr result)],
                          stdout := stdout w1 @
                            [''Message Id: '' @ message_id @ '' - sent to '' @ to_email @ ''.'']\<rparr>"
      have eq: "send_loop ext service sender (t # ts) w = send_loop ext service sender ts w2"
        by (simp add: unfold Inr Some w2_def)
      obtain calls where c: "sent (snd (send_loop ext service sender ts w2)) = sent w2 @ calls"
        "loop_trace ext sender ts (fst (send_loop ext service sender ts w2)) calls"
        using Cons.IH [of w2] by blast
      have "sent (snd (send_loop ext service sender (t # ts) w)) =
              sent w @ ((request, Inr result) # calls)"
        using c(1) s1 by (simp add: eq w2_def)
      moreover have "loop_trace ext sender (t # ts) (fst (send_loop ext service sender (t # ts) w))
              ((request, Inr result) # calls)"
        unfolding eq by (rule loop_trace_Cons [OF rf c(2)])
      ultimately show ?thesis by blast
    qed
  qed
qed

lemma send_loop_oauth:
  "oauth_flows (snd (send_loop ext service sender ts w)) = oauth_flows w"
proof (induction ts arbitrary: w)
  case Nil
  show ?case by simp
next
  case (Cons t ts)
  obtain b s to_email where t: "t = (b, s, to_email)" by (cases t) auto
  show ?case
    unfolding t send_loop_Cons Let_def
    by (simp add: Cons.IH split: prod.splits sum.splits option.splits)
qed

lemma send_message_auth_cases:
  "(authorization_succeeds ext w \<and>
      (\<exists>service w1. send_message ext bs ss ts w =
           send_loop ext service ''cameron.michie@ably.com'' (zip bs (zip ss ts)) w1
         \<and> sent w1 = sent w \<and> oauth_flows w1 = Suc (oauth_flows w)))
   \<or> (\<not> authorization_succeeds ext w \<and>
      (\<exists>e. fst (send_message ext bs ss ts w) = Inl e) \<and>
      sent (snd (send_message ext bs ss ts w)) = sent w)"
proof -
  obtain r0 x where f0:
    "from_client_secrets_file ext ''credentials.json'' SCOPES (outside w) = (r0, x)"
    by (cases "from_client_secrets_file ext ''credentials.json'' SCOPES (outside w)") auto
  show ?thesis
  proof (cases r0)
    case (Inl e)
    show ?thesis
      by (simp add: send_message_def authorization_succeeds_def f0 Inl)
  next
    case r0: (Inr flow)
    obtain r1 x1 where f1: "run_local_server ext flow 0 x = (r1, x1)"
      by (cases "run_local_server ext flow 0 x") auto
    show ?thesis
    proof (cases r1)
      case (Inl e)
      show ?thesis
        by (simp add: send_message_def authorization_succeeds_def f0 r0 f1 Inl)
    next
      case r1: (Inr creds)
      obtain r2 x2 where f2: "gmail_build ext ''gmail'' ''v1'' creds x1 = (r2, x2)"
        by (cases "gmail_build ext ''gmail'' ''v1'' creds x1") auto
      show ?thesis
      proof (cases r2)
        case (Inl e)
        show ?thesis
          by (simp add: send_message_def authorization_succeeds_def f0 r0 f1 r1 f2 Inl)
      next
        case r2: (Inr service)
        have ok: "authorization_succeeds ext w"
          by (simp add: authorization_succeeds_def f0 r0 f1 r1 f2 r2)
        have "send_message ext bs ss ts w =
                send_loop ext service ''cameron.michie@ably.com'' (zip bs (zip ss ts))
                  (w\<lparr>outside := x2, oauth_flows := Suc (oauth_flows w)\<rparr>)"
          by (simp add: send_message_def f0 r0 f1 r1 f2 r2)
        moreover have "sent (w\<lparr>outside := x2, oauth_flows := Suc (oauth_flows w)\<rparr>) = sent w"
          "oauth_flows (w\<lparr>outside := x2, oauth_flows := Suc (oauth_flows w)\<rparr>) =
             Suc (oauth_flows w)"
          by simp_all
        ultimately show ?thesis using ok by blast
      qed
    qed
  qed
qed

lemma send_message_trace:
  "\<exists>calls. sent (snd (send_message ext bs ss ts w)) = sent w @ calls
      \<and> loop_trace ext ''cameron.michie@ably.com'' (zip bs (zip ss ts))
           (fst (send_message ext bs ss ts w)) calls"
proof -
  consider
    (ok) service w1 where
      "send_message ext bs ss ts w =
         send_loop ext service ''cameron.michie@ably.com'' (zip bs (zip ss ts)) w1"
      "sent w1 = sent w"
  | (failed) e where "fst (send_message ext bs ss ts w) = Inl e"
      "sent (snd (send_message ext bs ss ts w)) = sent w"
    using send_message_auth_cases [of ext w bs ss ts] by blast
  then show ?thesis
  proof cases
    case ok
    show ?thesis
      using send_loop_trace [of ext service "''cameron.michie@ably.com''" "zip bs (zip ss ts)" w1]
      by (simp add: ok)
  next
    case failed
    show ?thesis
      using loop_trace_not_started [of ext _ _ e] by (simp add: failed)
  qed
qed

lemma loop_trace_requests:
  assumes "loop_trace ext sender zs r calls" "i < length calls"
  shows "request_for ext sender (zs ! i) (fst (calls ! i))"
proof -
  have "list_all2 (\<lambda>t c. request_for ext sender t (fst c)) (take (length calls) zs) calls"
    using assms(1) by (simp add: loop_trace_def)
  then have "request_for ext sender (take (length calls) zs ! i) (fst (calls ! i))"
    using assms(2) by (rule list_all2_nthD2)
  then show ?thesis using assms(2) by simp
qed

lemma loop_trace_failed_is_last:
  assumes "loop_trace ext sender zs r calls" "i < length calls" "snd (calls ! i) = Inl e"
  shows "length calls = Suc i \<and> r = Inl e"
proof -
  have bl: "\<forall>c\<in>set (butlast calls). \<exists>result. snd c = Inr result"
    using assms(1) by (simp add: loop_trace_def)
  have "\<not> i < length (butlast calls)"
  proof
    assume lt: "i < length (butlast calls)"
    then have "butlast calls ! i \<in> set (butlast calls)" by (rule nth_mem)
    moreover have "butlast calls ! i = calls ! i" using lt by (simp add: nth_butlast)
    ultimately show False using bl assms(3) by auto
  qed
  then have len: "length calls = Suc i" using assms(2) by simp
  then have ne: "calls \<noteq> []" by auto
  then have "last calls = calls ! i" using len by (simp add: last_conv_nth)
  then have "r = Inl e" using ne assms(1,3) by (simp add: loop_trace_def)
  then show ?thesis using len by simp
qed

lemma loop_trace_before_succeeded:
  assumes "loop_trace ext sender zs r calls" "Suc j < length calls"
  shows "\<exists>result. snd (calls ! j) = Inr result"
proof -
  have bl: "\<forall>c\<in>set (butlast calls). \<exists>result. snd c = Inr result"
    using assms(1) by (simp add: loop_trace_def)
  have lt: "j < length (butlast calls)" using assms(2) by simp
  then have "butlast calls ! j \<in> set (butlast calls)" by (rule nth_mem)
  moreover have "butlast calls ! j = calls ! j" using lt by (simp add: nth_butlast)
  ultimately show ?thesis using bl by auto
qed



lemma send_message_returned_trace:
  assumes "length email_bodies = n" "length email_subjects = n" "length to_emails = n"
    and "fst (send_message ext email_bodies email_subjects to_emails w) = Inr ()"
  shows "\<exists>calls. sent (snd (send_message ext email_bodies email_subjects to_emails w)) =
                   sent w @ calls
           \<and> length calls = n
           \<and> (\<forall>i<n. \<exists>wi. fst (calls ! i) =
                 \<lparr>userId = ''me'',
                  body = fst (create_message ext ''cameron.michie@ably.com''
                           (to_emails ! i) (email_subjects ! i) (email_bodies ! i) wi)\<rparr>)"
proof -
  obtain calls where c:
    "sent (snd (send_message ext email_bodies email_subjects to_emails w)) = sent w @ calls"
    "loop_trace ext ''cameron.michie@ably.com'' (zip email_bodies (zip email_subjects to_emails))
       (fst (send_message ext email_bodies email_subjects to_emails w)) calls"
    using send_message_trace [of ext email_bodies email_subjects to_emails w] by auto
  have len: "length calls = n"
    using c(2) assms by (simp add: loop_trace_def)
  have "\<exists>wi. fst (calls ! i) =
                 \<lparr>userId = ''me'',
                  body = fst (create_message ext ''cameron.michie@ably.com''
                           (to_emails ! i) (email_subjects ! i) (email_bodies ! i) wi)\<rparr>"
    if "i < n" for i
  proof -
    have "request_for ext ''cameron.michie@ably.com''
            (zip email_bodies (zip email_subjects to_emails) ! i) (fst (calls ! i))"
      using loop_trace_requests [OF c(2)] that len by simp
    then show ?thesis
      using that assms(1-3) by (simp add: request_for_def)
  qed
  then show ?thesis using c(1) len by blast
qed

text \<open>
  Claim C1. When the three sequences have the same length \<open>n\<close> and \<open>send_message\<close>
  returns, it has issued exactly \<open>n\<close> send calls after those issued before, and the
  \<open>i\<close>-th is the request built from \<open>email_bodies ! i\<close>, \<open>email_subjects ! i\<close> and
  \<open>to_emails ! i\<close>, in input order. For \<open>n = 0\<close> no call is issued, whatever the
  authorization does; recipients that occur twice are sent to twice, each at its own
  position.
\<close>

theorem send_message_sends_each_in_order:
  assumes "length email_bodies = n" "length email_subjects = n" "length to_emails = n"
  shows "(n = 0 \<longrightarrow>
           sent (snd (send_message ext email_bodies email_subjects to_emails w)) = sent w)
         \<and> (fst (send_message ext email_bodies email_subjects to_emails w) = Inr () \<longrightarrow>
             (\<exists>calls. sent (snd (send_message ext email_bodies email_subjects to_emails w)) =
                   sent w @ calls
               \<and> length calls = n
               \<and> (\<forall>i<n. \<exists>wi. fst (calls ! i) =
                     \<lparr>userId = ''me'',
                      body = fst (create_message ext ''cameron.michie@ably.com''
                               (to_emails ! i) (email_subjects ! i) (email_bodies ! i) wi)\<rparr>)))"
proof (intro conjI impI)
  assume "n = 0"
  obtain calls where c:
    "sent (snd (send_message ext email_bodies email_subjects to_emails w)) = sent w @ calls"
    "loop_trace ext ''cameron.michie@ably.com'' (zip email_bodies (zip email_subjects to_emails))
       (fst (send_message ext email_bodies email_subjects to_emails w)) calls"
    using send_message_trace [of ext email_bodies email_subjects to_emails w] by auto
  have "calls = []"
    using c(2) assms \<open>n = 0\<close> by (simp add: loop_trace_def)
  then show "sent (snd (send_message ext email_bodies email_subjects to_emails w)) = sent w"
    using c(1) by simp
next
  assume "fst (send_message ext email_bodies email_subjects to_emails w) = Inr ()"
  then show "\<exists>calls. sent (snd (send_message ext email_bodies email_subjects to_emails w)) =
                   sent w @ calls
               \<and> length calls = n
               \<and> (\<forall>i<n. \<exists>wi. fst (calls ! i) =
                     \<lparr>userId = ''me'',
                      body = fst (create_message ext ''cameron.michie@ably.com''
                               (to_emails ! i) (email_subjects ! i) (email_bodies ! i) wi)\<rparr>)"
    using assms by (rule send_message_returned_trace [rotated 3])
qed

text \<open>Three messages, the first and the third to the same recipient.\<close>

theorem send_message_sends_each_in_order_witness:
  "fst (send_message sim_externals [''<p>one</p>'', ''<p>two</p>'', ''<p>three</p>'']
         [''First'', ''Second'', ''Third''] [''a@x.com'', ''b@x.com'', ''a@x.com'']
         (world0 sim0)) = Inr ()
   \<and> (\<exists>calls. sent (snd (send_message sim_externals [''<p>one</p>'', ''<p>two</p>'', ''<p>three</p>'']
         [''First'', ''Second'', ''Third''] [''a@x.com'', ''b@x.com'', ''a@x.com'']
         (world0 sim0))) = sent (world0 sim0) @ calls
           \<and> length calls = 3
           \<and> (\<forall>i<3. \<exists>wi. fst (calls ! i) =
                 \<lparr>userId = ''me'',
                  body = fst (create_message sim_externals ''cameron.michie@ably.com''
                           ([''a@x.com'', ''b@x.com'', ''a@x.com''] ! i)
                           ([''First'', ''Second'', ''Third''] ! i)
                           ([''<p>one</p>'', ''<p>two</p>'', ''<p>three</p>''] ! i) wi)\<rparr>))"
proof -
  have h: "fst (send_message sim_externals [''<p>one</p>'', ''<p>two</p>'', ''<p>three</p>'']
         [''First'', ''Second'', ''Third''] [''a@x.com'', ''b@x.com'', ''a@x.com'']
         (world0 sim0)) = Inr ()"
    by code_simp
  have t: "\<exists>calls. sent (snd (send_message sim_externals
         [''<p>one</p>'', ''<p>two</p>'', ''<p>three</p>'']
         [''First'', ''Second'', ''Third''] [''a@x.com'', ''b@x.com'', ''a@x.com'']
         (world0 sim0))) = sent (world0 sim0) @ calls
           \<and> length calls = 3
           \<and> (\<forall>i<3. \<exists>wi. fst (calls ! i) =
                 \<lparr>userId = ''me'',
                  body = fst (create_message sim_externals ''cameron.michie@ably.com''
                           ([''a@x.com'', ''b@x.com'', ''a@x.com''] ! i)
                           ([''First'', ''Second'', ''Third''] ! i)
                           ([''<p>one</p>'', ''<p>two</p>'', ''<p>three</p>''] ! i) wi)\<rparr>)"
    by (rule send_message_sends_each_in_order [THEN conjunct2, THEN mp, OF _ _ _ h]) simp_all
  show ?thesis
    by (rule conjI [OF h t])
qed

text \<open>
  Claim C5. For sequences of the same length: the send calls issued are those for the
  positions \<open>0, 1, \<dots>\<close> in order, and when the call for position \<open>i\<close> raises \<open>e\<close> it
  is the last call issued (none is attempted for a later position), the calls before it
  were answered, and \<open>e\<close> is what \<open>send_message\<close> raises.
\<close>

theorem send_failure_aborts_rest:
  assumes "length email_bodies = n" "length email_subjects = n" "length to_emails = n"
  shows "\<exists>calls. sent (snd (send_message ext email_bodies email_subjects to_emails w)) =
                   sent w @ calls
           \<and> length calls \<le> n
           \<and> (\<forall>i<length calls. \<exists>wi. fst (calls ! i) =
                 \<lparr>userId = ''me'',
                  body = fst (create_message ext ''cameron.michie@ably.com''
                           (to_emails ! i) (email_subjects ! i) (email_bodies ! i) wi)\<rparr>)
           \<and> (\<forall>i<length calls. \<forall>e. snd (calls ! i) = Inl e \<longrightarrow>
                 length calls = Suc i
                 \<and> fst (send_message ext email_bodies email_subjects to_emails w) = Inl e
                 \<and> (\<forall>j<i. \<exists>result. snd (calls ! j) = Inr result))"
proof -
  let ?zs = "zip email_bodies (zip email_subjects to_emails)"
  let ?r = "fst (send_message ext email_bodies email_subjects to_emails w)"
  obtain calls where c:
    "sent (snd (send_message ext email_bodies email_subjects to_emails w)) = sent w @ calls"
    "loop_trace ext ''cameron.michie@ably.com'' ?zs ?r calls"
    using send_message_trace [of ext email_bodies email_subjects to_emails w] by auto
  have len: "length calls \<le> n"
    using c(2) assms by (simp add: loop_trace_def)
  have rq: "\<exists>wi. fst (calls ! i) =
                 \<lparr>userId = ''me'',
                  body = fst (create_message ext ''cameron.michie@ably.com''
                           (to_emails ! i) (email_subjects ! i) (email_bodies ! i) wi)\<rparr>"
    if "i < length calls" for i
  proof -
    have "request_for ext ''cameron.michie@ably.com'' (?zs ! i) (fst (calls ! i))"
      using loop_trace_requests [OF c(2) that] .
    then show ?thesis
      using that len assms by (simp add: request_for_def)
  qed
  have fl: "length calls = Suc i \<and> ?r = Inl e \<and> (\<forall>j<i. \<exists>result. snd (calls ! j) = Inr result)"
    if "i < length calls" "snd (calls ! i) = Inl e" for i e
  proof -
    have l: "length calls = Suc i \<and> ?r = Inl e"
      using loop_trace_failed_is_last [OF c(2) that] .
    have "\<exists>result. snd (calls ! j) = Inr result" if "j < i" for j
      using loop_trace_before_succeeded [OF c(2), of j] that l by simp
    then show ?thesis using l by simp
  qed
  show ?thesis
    using c(1) len rq fl by blast
qed

text \<open>The provider rejects the second of three messages: two calls, no third.\<close>

theorem send_failure_aborts_rest_witness:
  "length (sent (snd (send_message sim_externals [''<p>one</p>'', ''<p>two</p>'', ''<p>three</p>'']
         [''First'', ''Second'', ''Third''] [''a@x.com'', ''b@x.com'', ''c@x.com'']
         (world0 (sim0\<lparr>rejected := [1]\<rparr>))))) = 2
   \<and> snd (sent (snd (send_message sim_externals [''<p>one</p>'', ''<p>two</p>'', ''<p>three</p>'']
         [''First'', ''Second'', ''Third''] [''a@x.com'', ''b@x.com'', ''c@x.com'']
         (world0 (sim0\<lparr>rejected := [1]\<rparr>)))) ! 1) = Inl (ExternalError ''HttpError'')
   \<and> fst (send_message sim_externals [''<p>one</p>'', ''<p>two</p>'', ''<p>three</p>'']
         [''First'', ''Second'', ''Third''] [''a@x.com'', ''b@x.com'', ''c@x.com'']
         (world0 (sim0\<lparr>rejected := [1]\<rparr>))) = Inl (ExternalError ''HttpError'')"
proof -
  let ?R = "send_message sim_externals [''<p>one</p>'', ''<p>two</p>'', ''<p>three</p>'']
         [''First'', ''Second'', ''Third''] [''a@x.com'', ''b@x.com'', ''c@x.com'']
         (world0 (sim0\<lparr>rejected := [1]\<rparr>))"
  have l: "length (sent (snd ?R)) = 2" by code_simp
  have f: "snd (sent (snd ?R) ! 1) = Inl (ExternalError ''HttpError'')" by code_simp
  obtain calls where c: "sent (snd ?R) = sent (world0 (sim0\<lparr>rejected := [1]\<rparr>)) @ calls"
    "\<forall>i<length calls. \<forall>e. snd (calls ! i) = Inl e \<longrightarrow>
        length calls = Suc i \<and> fst ?R = Inl e
        \<and> (\<forall>j<i. \<exists>result. snd (calls ! j) = Inr result)"
    using send_failure_aborts_rest [of "[''<p>one</p>'', ''<p>two</p>'', ''<p>three</p>'']" 3
        "[''First'', ''Second'', ''Third'']" "[''a@x.com'', ''b@x.com'', ''c@x.com'']"
        sim_externals "world0 (sim0\<lparr>rejected := [1]\<rparr>)"]
    by auto
  have s: "sent (snd ?R) = calls" using c(1) by (simp add: world0_def)
  have "fst ?R = Inl (ExternalError ''HttpError'')"
    using c(2) [rule_format, of 1 "ExternalError ''HttpError''"] l f unfolding s by simp
  then show ?thesis using l f by simp
qed



subsection \<open>\<open>create_message\<close> and the state of the process\<close>

text \<open>
  Claim C8, as the code has it. \<open>create_message\<close> issues no send call, prints nothing,
  runs no authorization and leaves the warehouse connection alone; its output is fixed by
  its four arguments together with the bytes that the serializer emits for the message
  they determine: two invocations with the same arguments give the same output exactly
  when the serializer emits the same bytes both times.
\<close>

theorem create_message_output_follows_serializer:
  "(\<exists>m. \<forall>w1 w2.
       (fst (create_message ext sender to subject message_html w1) =
        fst (create_message ext sender to subject message_html w2))
       = (fst (as_bytes ext m (outside w1)) = fst (as_bytes ext m (outside w2))))
   \<and> sent (snd (create_message ext sender to subject message_html w)) = sent w
   \<and> stdout (snd (create_message ext sender to subject message_html w)) = stdout w
   \<and> oauth_flows (snd (create_message ext sender to subject message_html w)) = oauth_flows w
   \<and> connect_calls (snd (create_message ext sender to subject message_html w)) = connect_calls w
   \<and> live (snd (create_message ext sender to subject message_html w)) = live w
   \<and> snowflake_connection (snd (create_message ext sender to subject message_html w)) =
       snowflake_connection w"
proof -
  let ?m = "\<lparr>subtype = ''alternative'',
         items = [(''to'', to), (''from'', sender), (''subject'', subject),
                  (''bcc'', ''6939709@bcc.hubspot.com'')],
         parts = [\<lparr>payload = message_html, text_subtype = ''html''\<rparr>]\<rparr>"
  have "(fst (create_message ext sender to subject message_html w1) =
        fst (create_message ext sender to subject message_html w2))
       = (fst (as_bytes ext ?m (outside w1)) = fst (as_bytes ext ?m (outside w2)))" for w1 w2
    unfolding create_message_raw using b64_inj by auto
  then have a: "\<exists>m. \<forall>w1 w2.
       (fst (create_message ext sender to subject message_html w1) =
        fst (create_message ext sender to subject message_html w2))
       = (fst (as_bytes ext m (outside w1)) = fst (as_bytes ext m (outside w2)))"
    by blast
  show ?thesis
    using a by (simp add: create_message_world)
qed

text \<open>
  Claim C8 fails as stated: the serializer draws the boundary of the multipart message
  from the random generator, so a second invocation with the same arguments, right after
  the first, returns a different text.
\<close>

theorem create_message_twice_differs:
  "fst (create_message sim_externals ''cameron.michie@ably.com'' ''a@x.com'' ''Hi'' ''<p>hi</p>''
          (world0 sim0))
   \<noteq> fst (create_message sim_externals ''cameron.michie@ably.com'' ''a@x.com'' ''Hi'' ''<p>hi</p>''
          (snd (create_message sim_externals ''cameron.michie@ably.com'' ''a@x.com'' ''Hi''
                  ''<p>hi</p>'' (world0 sim0))))"
proof -
  let ?m = "\<lparr>subtype = ''alternative'',
         items = [(''to'', ''a@x.com''), (''from'', ''cameron.michie@ably.com''),
                  (''subject'', ''Hi''), (''bcc'', ''6939709@bcc.hubspot.com'')],
         parts = [\<lparr>payload = ''<p>hi</p>'', text_subtype = ''html''\<rparr>]\<rparr>"
  have w1: "outside (snd (create_message sim_externals ''cameron.michie@ably.com'' ''a@x.com''
                ''Hi'' ''<p>hi</p>'' (world0 sim0))) = sim0\<lparr>tokens := [2, 3]\<rparr>"
    by (simp add: create_message_world sim_externals_def sim_as_bytes_def world0_def sim0_def)
  have b1: "fst (as_bytes sim_externals ?m (outside (world0 sim0))) =
              flatten_multipart (make_boundary 1) ?m"
    by (simp add: sim_externals_def sim_as_bytes_def world0_def sim0_def)
  have b2: "fst (as_bytes sim_externals ?m (sim0\<lparr>tokens := [2, 3]\<rparr>)) =
              flatten_multipart (make_boundary 2) ?m"
    by (simp add: sim_externals_def sim_as_bytes_def sim0_def)
  have d: "flatten_multipart (make_boundary 1) ?m \<noteq> flatten_multipart (make_boundary 2) ?m"
    by code_simp
  show ?thesis
    unfolding create_message_raw w1 b1 b2 using d b64_inj by auto
qed

subsection \<open>The warehouse connection\<close>

lemma get_snowflake_connection_existing:
  "snowflake_connection w = Some c \<Longrightarrow> get_snowflake_connection ext w = (Inr c, w)"
  by (simp add: get_snowflake_connection_def)

lemma get_snowflake_connection_created:
  assumes "snowflake_connection w = None" "snowflake_connect ext config (outside w) = (Inr c, x)"
  shows "get_snowflake_connection ext w =
     (Inr c, w\<lparr>outside := x, connect_calls := connect_calls w @ [config],
               snowflake_connection := Some c, live := live w @ [c],
               stdout := stdout w @ [''New Snowflake connection established.'']\<rparr>)"
  using assms by (simp add: get_snowflake_connection_def)

lemma get_snowflake_connection_records:
  assumes "fst (get_snowflake_connection ext w) = Inr c"
  shows "snowflake_connection (snd (get_snowflake_connection ext w)) = Some c"
proof (cases "snowflake_connection w")
  case None
  obtain r x where f: "snowflake_connect ext config (outside w) = (r, x)"
    by (cases "snowflake_connect ext config (outside w)") auto
  show ?thesis
    using assms by (cases r) (simp_all add: get_snowflake_connection_def None f)
next
  case (Some c')
  then show ?thesis
    using assms by (simp add: get_snowflake_connection_def)
qed

lemma get_snowflake_connection_one:
  assumes "one_connection w"
  shows "one_connection (snd (get_snowflake_connection ext w))"
proof (cases "snowflake_connection w")
  case None
  obtain r x where f: "snowflake_connect ext config (outside w) = (r, x)"
    by (cases "snowflake_connect ext config (outside w)") auto
  show ?thesis
    using assms by (cases r) (simp_all add: get_snowflake_connection_def one_connection_def None f)
next
  case (Some c)
  then show ?thesis
    using assms by (simp add: get_snowflake_connection_def)
qed

lemma fetch_data_as_json_one:
  assumes "one_connection w"
  shows "one_connection (snd (fetch_data_as_json ext sql w))"
proof -
  obtain r w1 where g: "get_snowflake_connection ext w = (r, w1)"
    by (cases "get_snowflake_connection ext w") auto
  have o: "one_connection w1"
    using get_snowflake_connection_one [OF assms, of ext] by (simp add: g)
  show ?thesis
  proof (cases r)
    case (Inl e)
    then show ?thesis using o by (simp add: fetch_data_as_json_def g)
  next
    case (Inr connection)
    obtain q x where c: "cursor_fetch_json ext connection sql (outside w1) = (q, x)"
      by (cases "cursor_fetch_json ext connection sql (outside w1)") auto
    show ?thesis
      using o by (simp add: fetch_data_as_json_def g Inr c one_connection_def)
  qed
qed

lemma process_try_one:
  assumes "one_connection w"
  shows "one_connection (snd (process_try ext get_sql w))"
proof (cases get_sql)
  case (Inl e)
  then show ?thesis using assms by (simp add: process_try_def)
next
  case (Inr sql)
  obtain r w1 where f: "fetch_data_as_json ext sql w = (r, w1)"
    by (cases "fetch_data_as_json ext sql w") auto
  have o: "one_connection w1"
    using fetch_data_as_json_one [OF assms, of ext sql] by (simp add: f)
  show ?thesis
  proof (cases r)
    case (Inl e)
    then show ?thesis using o by (simp add: process_try_def Inr f)
  next
    case json: (Inr json_data)
    show ?thesis
      using o by (cases "json_loads ext json_data")
        (simp_all add: process_try_def Inr f json one_connection_def)
  qed
qed

lemma process_except_one:
  assumes "one_connection w"
  shows "one_connection (snd (process_except ext e w))"
proof (cases "snowflake_connection w")
  case None
  then show ?thesis
    using assms by (simp add: process_except_def one_connection_def)
next
  case (Some c)
  obtain r x where cl:
    "connection_close ext c (outside w) = (r, x)"
    by (cases "connection_close ext c (outside w)") auto
  show ?thesis
    using assms by (cases r) (simp_all add: process_except_def Some cl one_connection_def)
qed

lemma process_snowflake_query_one:
  assumes "one_connection w"
  shows "one_connection (snd (process_snowflake_query ext get_sql w))"
proof -
  obtain r w1 where t: "process_try ext get_sql w = (r, w1)"
    by (cases "process_try ext get_sql w") auto
  have o: "one_connection w1"
    using process_try_one [OF assms, of ext get_sql] by (simp add: t)
  show ?thesis
  proof (cases r)
    case (Inl e)
    then show ?thesis
      using process_except_one [OF o, of ext e] by (simp add: process_snowflake_query_def t)
  next
    case (Inr parsed)
    then show ?thesis using o by (simp add: process_snowflake_query_def t)
  qed
qed

lemma one_connection_at_most_one: "one_connection w \<Longrightarrow> length (live w) \<le> 1"
  by (simp add: one_connection_def split: option.splits)

text \<open>
  Claim C7. With the attribute set, \<open>get_snowflake_connection\<close> returns the recorded
  handle and changes nothing (no call to \<open>connect\<close>). Without it, when \<open>connect\<close> returns
  \<open>c\<close>, the call returns \<open>c\<close>, has called \<open>connect\<close> once, with the fixed configuration, and
  has recorded \<open>c\<close> in the attribute. A call right after a call that returned \<open>c\<close> returns
  \<open>c\<close> again and changes nothing. The open connections being exactly the recorded one is
  kept by \<open>get_snowflake_connection\<close>, \<open>fetch_data_as_json\<close> and
  \<open>process_snowflake_query\<close>, so at most one connection is open at a time.
\<close>

theorem get_snowflake_connection_singleton:
  "(snowflake_connection w = Some c \<longrightarrow> get_snowflake_connection ext w = (Inr c, w))
   \<and> (snowflake_connection w = None \<and> snowflake_connect ext config (outside w) = (Inr c, x) \<longrightarrow>
        get_snowflake_connection ext w =
          (Inr c, w\<lparr>outside := x, connect_calls := connect_calls w @ [config],
                    snowflake_connection := Some c, live := live w @ [c],
                    stdout := stdout w @ [''New Snowflake connection established.'']\<rparr>))
   \<and> (fst (get_snowflake_connection ext w) = Inr c \<longrightarrow>
        get_snowflake_connection ext (snd (get_snowflake_connection ext w)) =
          (Inr c, snd (get_snowflake_connection ext w)))
   \<and> (one_connection w \<longrightarrow>
        length (live w) \<le> 1
        \<and> one_connection (snd (get_snowflake_connection ext w))
        \<and> one_connection (snd (fetch_data_as_json ext sql w))
        \<and> one_connection (snd (process_snowflake_query ext get_sql w)))"
proof (intro conjI impI)
  show "get_snowflake_connection ext w = (Inr c, w)" if "snowflake_connection w = Some c"
    using that by (rule get_snowflake_connection_existing)
  show "get_snowflake_connection ext w =
          (Inr c, w\<lparr>outside := x, connect_calls := connect_calls w @ [config],
                    snowflake_connection := Some c, live := live w @ [c],
                    stdout := stdout w @ [''New Snowflake connection established.'']\<rparr>)"
    if "snowflake_connection w = None \<and> snowflake_connect ext config (outside w) = (Inr c, x)"
    using that get_snowflake_connection_created [of w ext c x] by blast
  show "get_snowflake_connection ext (snd (get_snowflake_connection ext w)) =
          (Inr c, snd (get_snowflake_connection ext w))"
    if "fst (get_snowflake_connection ext w) = Inr c"
    using get_snowflake_connection_records [OF that]
    by (rule get_snowflake_connection_existing)
  show "length (live w) \<le> 1" if "one_connection w"
    using that by (rule one_connection_at_most_one)
  show "one_connection (snd (get_snowflake_connection ext w))" if "one_connection w"
    using that by (rule get_snowflake_connection_one)
  show "one_connection (snd (fetch_data_as_json ext sql w))" if "one_connection w"
    using that by (rule fetch_data_as_json_one)
  show "one_connection (snd (process_snowflake_query ext get_sql w))" if "one_connection w"
    using that by (rule process_snowflake_query_one)
qed

text \<open>
  The first call on a fresh process creates connection 0; the second call returns it
  and leaves the world as it is.
\<close>

theorem get_snowflake_connection_singleton_witness:
  "snowflake_connection (world0 sim0) = None
   \<and> snowflake_connect sim_externals config (outside (world0 sim0)) = (Inr 0, sim0\<lparr>handles := 1\<rparr>)
   \<and> one_connection (world0 sim0)
   \<and> fst (get_snowflake_connection sim_externals (world0 sim0)) = Inr 0
   \<and> connect_calls (snd (get_snowflake_connection sim_externals (world0 sim0))) = [config]
   \<and> get_snowflake_connection sim_externals (snd (get_snowflake_connection sim_externals (world0 sim0)))
       = (Inr 0, snd (get_snowflake_connection sim_externals (world0 sim0)))
   \<and> one_connection (snd (process_snowflake_query sim_externals (Inr ''select 1'') (world0 sim0)))"
proof -
  have a: "snowflake_connection (world0 sim0) = None"
    by (simp add: world0_def)
  have b: "snowflake_connect sim_externals config (outside (world0 sim0)) =
             (Inr 0, sim0\<lparr>handles := 1\<rparr>)"
    by (simp add: sim_externals_def sim_connect_def world0_def sim0_def)
  have o: "one_connection (world0 sim0)"
    by (simp add: one_connection_def world0_def)
  note t = get_snowflake_connection_singleton [of "world0 sim0" 0 sim_externals
      "sim0\<lparr>handles := 1\<rparr>" "''select 1''" "Inr ''select 1''"]
  have g: "get_snowflake_connection sim_externals (world0 sim0) =
          (Inr 0, (world0 sim0)\<lparr>outside := sim0\<lparr>handles := 1\<rparr>,
                    connect_calls := connect_calls (world0 sim0) @ [config],
                    snowflake_connection := Some 0, live := live (world0 sim0) @ [0],
                    stdout := stdout (world0 sim0) @ [''New Snowflake connection established.'']\<rparr>)"
    using t a b by blast
  have f: "fst (get_snowflake_connection sim_externals (world0 sim0)) = Inr 0"
    by (simp add: g)
  have c: "connect_calls (snd (get_snowflake_connection sim_externals (world0 sim0))) = [config]"
    unfolding g by (simp add: world0_def)
  have i: "get_snowflake_connection sim_externals
             (snd (get_snowflake_connection sim_externals (world0 sim0)))
           = (Inr 0, snd (get_snowflake_connection sim_externals (world0 sim0)))"
    using t f by blast
  have p: "one_connection (snd (process_snowflake_query sim_externals (Inr ''select 1'')
             (world0 sim0)))"
    using t o by blast
  show ?thesis using a b o f c i p by blast
qed

subsection \<open>Failures of \<open>process_snowflake_query\<close>\<close>

text \<open>
  When the body of the \<open>try\<close> raises \<open>e\<close> while a connection is recorded and \<open>close\<close>
  returns, the connection is closed, the attribute is deleted and \<open>e\<close> is raised again;
  the call after that creates a new connection.
\<close>

lemma process_except_connected:
  assumes "snowflake_connection w = Some c" "connection_close ext c (outside w) = (Inr u, x)"
  shows "process_except ext e w =
     (Inl e, w\<lparr>stdout := stdout w @ [''Error processing query: '' @ str_error e],
               outside := x, live := remove1 c (live w), snowflake_connection := None\<rparr>)"
  using assms by (simp add: process_except_def Let_def)

lemma process_snowflake_query_failure_connected:
  assumes "process_try ext get_sql w = (Inl e, w1)" "snowflake_connection w1 = Some c"
    "connection_close ext c (outside w1) = (Inr u, x)"
  shows "fst (process_snowflake_query ext get_sql w) = Inl e"
    and "snowflake_connection (snd (process_snowflake_query ext get_sql w)) = None"
    and "live (snd (process_snowflake_query ext get_sql w)) = remove1 c (live w1)"
  using assms by (simp_all add: process_snowflake_query_def process_except_connected)

text \<open>
  Claim C2 does not hold when the failure is in the creation of the connection. On a
  process that has no connection yet, with a warehouse that refuses the connection, the
  body of the \<open>try\<close> raises the error of \<open>connect\<close>; the \<open>except\<close> clause then reads the
  attribute, which does not exist, and \<open>process_snowflake_query\<close> raises
  \<open>AttributeError\<close> in place of the original error. Nothing is closed.
\<close>

theorem process_snowflake_query_connect_failure:
  "fst (process_try sim_externals (Inr ''select 1'') (world0 (sim0\<lparr>warehouse_up := False\<rparr>)))
     = Inl (ExternalError ''DatabaseError'')
   \<and> fst (process_snowflake_query sim_externals (Inr ''select 1'')
            (world0 (sim0\<lparr>warehouse_up := False\<rparr>)))
     = Inl (AttributeError ''snowflake_connection'')
   \<and> snowflake_connection (snd (process_snowflake_query sim_externals (Inr ''select 1'')
            (world0 (sim0\<lparr>warehouse_up := False\<rparr>)))) = None"
  by (simp add: process_snowflake_query_def process_try_def process_except_def
      fetch_data_as_json_def get_snowflake_connection_def sim_externals_def sim_connect_def
      world0_def sim0_def Let_def)

subsection \<open>The HTTP facade\<close>

lemma collect_all_present:
  assumes "list_all2 (\<lambda>d (html, subject, to_email).
              map_of d ''emailHtml'' = Some html \<and> map_of d ''emailSubject'' = Some subject
              \<and> map_of d ''USER_EMAIL'' = Some to_email) ds triples"
  shows "collect ds (emailBody, emailSubjects, emailTo) =
     Inr (emailBody @ map fst triples, emailSubjects @ map (fst \<circ> snd) triples,
          emailTo @ map (snd \<circ> snd) triples)"
  using assms
proof (induction ds triples arbitrary: emailBody emailSubjects emailTo rule: list_all2_induct)
  case Nil
  show ?case by simp
next
  case (Cons d ds t ts)
  obtain html subject to_email where t: "t = (html, subject, to_email)" by (cases t) auto
  have "collect (d # ds) (emailBody, emailSubjects, emailTo) =
          collect ds (emailBody @ [html], emailSubjects @ [subject], emailTo @ [to_email])"
    using Cons.hyps(1) by (simp add: t getitem_def)
  then show ?case
    by (simp add: Cons.IH t)
qed

lemma collect_missing:
  assumes "\<exists>d\<in>set ds. map_of d ''emailHtml'' = None \<or> map_of d ''emailSubject'' = None
             \<or> map_of d ''USER_EMAIL'' = None"
  shows "\<exists>k\<in>{''emailHtml'', ''emailSubject'', ''USER_EMAIL''}. collect ds acc = Inl (KeyError k)"
  using assms
proof (induction ds arbitrary: acc)
  case Nil
  then show ?case by simp
next
  case (Cons d ds)
  obtain emailBody emailSubjects emailTo where acc: "acc = (emailBody, emailSubjects, emailTo)"
    by (cases acc) auto
  show ?case
  proof (cases "map_of d ''emailHtml'' = None \<or> map_of d ''emailSubject'' = None
             \<or> map_of d ''USER_EMAIL'' = None")
    case True
    then show ?thesis
      by (auto simp: acc getitem_def split: option.splits)
  next
    case False
    then obtain html subject to_email where p: "map_of d ''emailHtml'' = Some html"
      "map_of d ''emailSubject'' = Some subject" "map_of d ''USER_EMAIL'' = Some to_email"
      by auto
    have rest: "\<exists>d\<in>set ds. map_of d ''emailHtml'' = None \<or> map_of d ''emailSubject'' = None
             \<or> map_of d ''USER_EMAIL'' = None"
      using Cons.prems False by auto
    have "collect (d # ds) acc =
            collect ds (emailBody @ [html], emailSubjects @ [subject], emailTo @ [to_email])"
      by (simp add: acc getitem_def p)
    then show ?thesis
      using Cons.IH [OF rest] by simp
  qed
qed

lemma archive_app_send_emails:
  "archive_app ext info POST ''/send_emails'' allEmailData w = send_emails ext allEmailData w"
  by (simp add: archive_app_def serve_def match_route_def archive_app_routes_def)

text \<open>
  Claim C4, for archive/app.py. Its routes are \<open>GET /\<close>, \<open>POST /run_script\<close> and
  \<open>POST /send_emails\<close>. For a body whose objects all have the three keys,
  \<open>POST /send_emails\<close> calls \<open>send_message\<close> with the values under \<open>emailHtml\<close>, under
  \<open>emailSubject\<close> and under \<open>USER_EMAIL\<close>, each sequence in the order of the array; when
  \<open>send_message\<close> returns, the response is the fixed confirmation with status 200, and
  when it raises, the exception leaves the handler.
\<close>

theorem archive_app_surface_and_send_emails:
  "set (surface archive_app_routes) =
     {(GET, ''/''), (POST, ''/run_script''), (POST, ''/send_emails'')}
   \<and> (list_all2 (\<lambda>d (html, subject, to_email).
              map_of d ''emailHtml'' = Some html \<and> map_of d ''emailSubject'' = Some subject
              \<and> map_of d ''USER_EMAIL'' = Some to_email) allEmailData triples \<longrightarrow>
        archive_app ext info POST ''/send_emails'' allEmailData w =
          (case send_message ext (map fst triples) (map (fst \<circ> snd) triples)
                  (map (snd \<circ> snd) triples)
                  (w\<lparr>stdout := stdout w @ [''Received data: '' @ repr ext allEmailData]\<rparr>) of
             (Inl e, w1) \<Rightarrow> (Inl e, w1)
           | (Inr u, w1) \<Rightarrow>
               (Inr \<lparr>status = 200,
                     content = JsonObject
                       [(''messaga'', ''Emails received and processed successfully!'')]\<rparr>,
                w1)))"
proof (intro conjI impI)
  show "set (surface archive_app_routes) =
     {(GET, ''/''), (POST, ''/run_script''), (POST, ''/send_emails'')}"
    by (auto simp: surface_def archive_app_routes_def)
next
  assume a: "list_all2 (\<lambda>d (html, subject, to_email).
              map_of d ''emailHtml'' = Some html \<and> map_of d ''emailSubject'' = Some subject
              \<and> map_of d ''USER_EMAIL'' = Some to_email) allEmailData triples"
  have c: "collect allEmailData ([], [], []) =
             Inr (map fst triples, map (fst \<circ> snd) triples, map (snd \<circ> snd) triples)"
    using collect_all_present [OF a, of "[]" "[]" "[]"] by simp
  show "archive_app ext info POST ''/send_emails'' allEmailData w =
          (case send_message ext (map fst triples) (map (fst \<circ> snd) triples)
                  (map (snd \<circ> snd) triples)
                  (w\<lparr>stdout := stdout w @ [''Received data: '' @ repr ext allEmailData]\<rparr>) of
             (Inl e, w1) \<Rightarrow> (Inl e, w1)
           | (Inr u, w1) \<Rightarrow>
               (Inr \<lparr>status = 200,
                     content = JsonObject
                       [(''messaga'', ''Emails received and processed successfully!'')]\<rparr>,
                w1))"
    unfolding archive_app_send_emails send_emails_def Let_def c by simp
qed

text \<open>
  The scenario of the specification: one descriptor, one send, status 200 and the
  confirmation.
\<close>

theorem archive_app_surface_and_send_emails_witness:
  "list_all2 (\<lambda>d (html, subject, to_email).
              map_of d ''emailHtml'' = Some html \<and> map_of d ''emailSubject'' = Some subject
              \<and> map_of d ''USER_EMAIL'' = Some to_email)
      [[(''emailHtml'', ''<p>hi</p>''), (''emailSubject'', ''Hi''), (''USER_EMAIL'', ''a@x.com'')]]
      [(''<p>hi</p>'', ''Hi'', ''a@x.com'')]
   \<and> fst (archive_app sim_externals ''select 1'' POST ''/send_emails''
      [[(''emailHtml'', ''<p>hi</p>''), (''emailSubject'', ''Hi''), (''USER_EMAIL'', ''a@x.com'')]]
      (world0 sim0)) =
     Inr \<lparr>status = 200,
          content = JsonObject [(''messaga'', ''Emails received and processed successfully!'')]\<rparr>
   \<and> length (sent (snd (archive_app sim_externals ''select 1'' POST ''/send_emails''
      [[(''emailHtml'', ''<p>hi</p>''), (''emailSubject'', ''Hi''), (''USER_EMAIL'', ''a@x.com'')]]
      (world0 sim0)))) = 1"
proof -
  let ?ds = "[[(''emailHtml'', ''<p>hi</p>''), (''emailSubject'', ''Hi''),
               (''USER_EMAIL'', ''a@x.com'')]]"
  let ?w = "(world0 sim0)\<lparr>stdout := stdout (world0 sim0) @
              [''Received data: '' @ repr sim_externals ?ds]\<rparr>"
  have a: "list_all2 (\<lambda>d (html, subject, to_email).
              map_of d ''emailHtml'' = Some html \<and> map_of d ''emailSubject'' = Some subject
              \<and> map_of d ''USER_EMAIL'' = Some to_email) ?ds [(''<p>hi</p>'', ''Hi'', ''a@x.com'')]"
    by simp
  have e: "archive_app sim_externals ''select 1'' POST ''/send_emails'' ?ds (world0 sim0) =
          (case send_message sim_externals [''<p>hi</p>''] [''Hi''] [''a@x.com''] ?w of
             (Inl e, w1) \<Rightarrow> (Inl e, w1)
           | (Inr u, w1) \<Rightarrow>
               (Inr \<lparr>status = 200,
                     content = JsonObject
                       [(''messaga'', ''Emails received and processed successfully!'')]\<rparr>,
                w1))"
    using archive_app_surface_and_send_emails [of ?ds "[(''<p>hi</p>'', ''Hi'', ''a@x.com'')]"
        sim_externals "''select 1''" "world0 sim0"] a
    by simp
  have s: "fst (send_message sim_externals [''<p>hi</p>''] [''Hi''] [''a@x.com''] ?w) = Inr ()"
    by code_simp
  have l: "length (sent (snd (send_message sim_externals [''<p>hi</p>''] [''Hi''] [''a@x.com'']
             ?w))) = 1"
    by code_simp
  obtain w1 where r:
    "send_message sim_externals [''<p>hi</p>''] [''Hi''] [''a@x.com''] ?w = (Inr (), w1)"
    using s by (cases "send_message sim_externals [''<p>hi</p>''] [''Hi''] [''a@x.com''] ?w") auto
  have l1: "length (sent w1) = 1"
    using l unfolding r by simp
  have "fst (archive_app sim_externals ''select 1'' POST ''/send_emails'' ?ds (world0 sim0)) =
     Inr \<lparr>status = 200,
          content = JsonObject [(''messaga'', ''Emails received and processed successfully!'')]\<rparr>"
    unfolding e r by simp
  moreover have "length (sent (snd (archive_app sim_externals ''select 1'' POST ''/send_emails''
      ?ds (world0 sim0)))) = 1"
    unfolding e r using l1 by simp
  ultimately show ?thesis using a by blast
qed

text \<open>
  Claim C4 fails for app.py, which registers \<open>POST /run_script\<close> and \<open>GET /\<close> only: the
  request of the scenario is answered 404 and nothing is sent.
\<close>

theorem app_has_no_send_emails:
  "(POST, ''/send_emails'') \<notin> set (surface app_routes)
   \<and> app sim_externals ''select 1'' POST ''/send_emails''
      [[(''emailHtml'', ''<p>hi</p>''), (''emailSubject'', ''Hi''), (''USER_EMAIL'', ''a@x.com'')]]
      (world0 sim0) = (Inr \<lparr>status = 404, content = Text []\<rparr>, world0 sim0)"
  by (simp add: app_def serve_def match_route_def app_routes_def surface_def)

text \<open>
  Claim C10. The handler of \<open>/send_emails\<close> reads the three fields of every descriptor
  before it calls \<open>send_message\<close>: when a descriptor of the batch lacks one of the keys,
  the request fails with \<open>KeyError\<close> on one of the three keys, no authorization has been
  run, no send call has been issued and nothing outside the process has been touched.
\<close>

theorem send_emails_missing_key:
  assumes "\<exists>d\<in>set allEmailData. map_of d ''emailHtml'' = None \<or> map_of d ''emailSubject'' = None
             \<or> map_of d ''USER_EMAIL'' = None"
  shows "(\<exists>k\<in>{''emailHtml'', ''emailSubject'', ''USER_EMAIL''}.
            fst (send_emails ext allEmailData w) = Inl (KeyError k))
         \<and> oauth_flows (snd (send_emails ext allEmailData w)) = oauth_flows w
         \<and> sent (snd (send_emails ext allEmailData w)) = sent w
         \<and> outside (snd (send_emails ext allEmailData w)) = outside w"
proof -
  obtain k where k: "k \<in> {''emailHtml'', ''emailSubject'', ''USER_EMAIL''}"
    "collect allEmailData ([], [], []) = Inl (KeyError k)"
    using collect_missing [OF assms, of "([], [], [])"] by blast
  have "send_emails ext allEmailData w =
          (Inl (KeyError k),
           w\<lparr>stdout := stdout w @ [''Received data: '' @ repr ext allEmailData]\<rparr>)"
    by (simp add: send_emails_def Let_def k(2))
  then show ?thesis using k(1) by auto
qed

text \<open>The second descriptor of two lacks the recipient: nothing is sent, not even the first.\<close>

theorem send_emails_missing_key_witness:
  "(\<exists>d\<in>set [[(''emailHtml'', ''<p>hi</p>''), (''emailSubject'', ''Hi''), (''USER_EMAIL'', ''a@x.com'')],
              [(''emailHtml'', ''<p>yo</p>''), (''emailSubject'', ''Yo'')]].
       map_of d ''emailHtml'' = None \<or> map_of d ''emailSubject'' = None
       \<or> map_of d ''USER_EMAIL'' = None)
   \<and> fst (send_emails sim_externals
        [[(''emailHtml'', ''<p>hi</p>''), (''emailSubject'', ''Hi''), (''USER_EMAIL'', ''a@x.com'')],
         [(''emailHtml'', ''<p>yo</p>''), (''emailSubject'', ''Yo'')]] (world0 sim0))
       = Inl (KeyError ''USER_EMAIL'')
   \<and> sent (snd (send_emails sim_externals
        [[(''emailHtml'', ''<p>hi</p>''), (''emailSubject'', ''Hi''), (''USER_EMAIL'', ''a@x.com'')],
         [(''emailHtml'', ''<p>yo</p>''), (''emailSubject'', ''Yo'')]] (world0 sim0))) = []
   \<and> oauth_flows (snd (send_emails sim_externals
        [[(''emailHtml'', ''<p>hi</p>''), (''emailSubject'', ''Hi''), (''USER_EMAIL'', ''a@x.com'')],
         [(''emailHtml'', ''<p>yo</p>''), (''emailSubject'', ''Yo'')]] (world0 sim0))) = 0"
proof -
  let ?ds = "[[(''emailHtml'', ''<p>hi</p>''), (''emailSubject'', ''Hi''),
               (''USER_EMAIL'', ''a@x.com'')],
              [(''emailHtml'', ''<p>yo</p>''), (''emailSubject'', ''Yo'')]]"
  have a: "\<exists>d\<in>set ?ds. map_of d ''emailHtml'' = None \<or> map_of d ''emailSubject'' = None
       \<or> map_of d ''USER_EMAIL'' = None"
    by simp
  have f: "fst (send_emails sim_externals ?ds (world0 sim0)) = Inl (KeyError ''USER_EMAIL'')"
    by (simp add: send_emails_def Let_def getitem_def)
  have "sent (snd (send_emails sim_externals ?ds (world0 sim0))) = sent (world0 sim0)"
    "oauth_flows (snd (send_emails sim_externals ?ds (world0 sim0))) = oauth_flows (world0 sim0)"
    using send_emails_missing_key [OF a, of sim_externals "world0 sim0"] by simp_all
  then show ?thesis using a f by (simp add: world0_def)
qed

end
